theory Spec2Isabelle
  imports Complex_Main
begin

section \<open>Python values shared by the whole script\<close>

text \<open>
  The exceptions the modelled code can raise. Every raising path of the source is an
  \<open>Inl\<close> branch of the corresponding function.
\<close>

datatype error = IndexError | KeyError | TypeError | ValueError

text \<open>
  Indexing a Python list or a one-dimensional numpy array with an integer: an index
  from \<open>-len\<close> up to \<open>-1\<close> counts from the end, anything outside \<open>-len .. len - 1\<close>
  raises IndexError.
\<close>

definition norm_index :: "nat \<Rightarrow> int \<Rightarrow> nat option" where
  "norm_index n i =
     (if 0 \<le> i \<and> i < int n then Some (nat i)
      else if - int n \<le> i \<and> i < 0 then Some (nat (int n + i))
      else None)"

definition py_index :: "'a list \<Rightarrow> int \<Rightarrow> error + 'a" where
  "py_index xs i = (case norm_index (length xs) i of None \<Rightarrow> Inl IndexError | Some k \<Rightarrow> Inr (xs ! k))"

definition py_setitem :: "'a list \<Rightarrow> int \<Rightarrow> 'a \<Rightarrow> error + 'a list" where
  "py_setitem xs i v = (case norm_index (length xs) i of None \<Rightarrow> Inl IndexError | Some k \<Rightarrow> Inr (xs[k := v]))"

text \<open>Looking a key up in a dict written as an association list: a missing key raises KeyError.\<close>

definition dict_get :: "('k \<times> 'v) list \<Rightarrow> 'k \<Rightarrow> error + 'v" where
  "dict_get d k = (case map_of d k of None \<Rightarrow> Inl KeyError | Some v \<Rightarrow> Inr v)"

text \<open>\<open>range(n)\<close> as the list of its integers (empty when \<open>n \<le> 0\<close>).\<close>

definition py_range :: "int \<Rightarrow> int list" where
  "py_range n = map int [0..<nat n]"

section \<open>The one-hot state encoding\<close>

text \<open>
  A state is a position: a numpy array of two integers, written as a pair. The
  integers that occur lie between -1 and 12, far inside the range of numpy's machine
  integers, so they are modelled as unbounded integers.
\<close>

type_synonym array2 = "int \<times> int"

text \<open>
  \<open>convert_state2onehot\<close>: \<open>np.zeros(state_dim)\<close> raises ValueError for a negative
  dimension, the subscript assignment raises IndexError out of range, and
  \<open>unsqueeze(0)\<close> wraps the vector into a batch of one row.
\<close>

definition convert_state2onehot :: "array2 \<Rightarrow> int \<Rightarrow> error + real list list" where
  "convert_state2onehot state state_dim =
     (if state_dim < 0 then Inl ValueError
      else let state_one_hot = replicate (nat state_dim) (0 :: real)
           in case py_setitem state_one_hot (fst state * 5 + snd state) 1 of
                Inl e \<Rightarrow> Inl e
              | Inr state_one_hot \<Rightarrow> Inr [state_one_hot])"

section \<open>The grid environment: class CliffWalking\<close>

text \<open>
  Positions are two-element numpy integer arrays. They are objects: \<open>take_action\<close>
  returns the array stored in the transition table, and writes into the array held by
  \<open>self.pos\<close>. The model therefore keeps the arrays in a store and the environment
  refers to them by address. Allocation appends to the store.
\<close>

type_synonym addr = nat
type_synonym store = "array2 list"

definition alloc :: "store \<Rightarrow> array2 \<Rightarrow> addr \<times> store" where
  "alloc h v = (length h, h @ [v])"

text \<open>One entry of the transition table: the tuple \<open>(new_pos, reward, terminate)\<close>.\<close>

type_synonym entry = "addr \<times> real \<times> bool"

record CliffWalking =
  shape :: "int \<times> int"
  pos :: addr
  cliff :: "bool list list"
  actions :: "(string \<times> int) list"
  action2shift :: "(int \<times> array2) list"
  transmit_tensor :: "entry list list list"
  num_actions :: int
  state_dim :: int

type_synonym world = "store \<times> CliffWalking"

text \<open>
  \<open>np.zeros(self.shape, dtype=np.bool)\<close> followed by \<open>cliff[-1, 1:-1] = 1\<close>: a
  boolean array that is true on the last row, without its first and last column
  (\<open>np.bool\<close> read as the boolean dtype, as numpy versions that have the name do).
\<close>

definition cliff_init :: "int \<times> int \<Rightarrow> bool list list" where
  "cliff_init sh =
     map (\<lambda>i. map (\<lambda>j. i = fst sh - 1 \<and> 1 \<le> j \<and> j < snd sh - 1) (py_range (snd sh)))
       (py_range (fst sh))"

text \<open>
  \<open>_cal_new_position_\<close>: the value of the new position array, the reward and the
  terminal flag. The caller stores the array.
\<close>

definition cal_new_position :: "CliffWalking \<Rightarrow> int \<times> int \<Rightarrow> int \<Rightarrow> error + (array2 \<times> real \<times> bool)" where
  "cal_new_position self old_pos action =
     (case dict_get (action2shift self) action of
        Inl e \<Rightarrow> Inl e
      | Inr shift \<Rightarrow>
          let new_pos = (fst old_pos + fst shift, snd old_pos + snd shift);
              new_pos = (max (fst new_pos) 0, snd new_pos);
              new_pos = (min (fst new_pos) (fst (shape self) - 1), snd new_pos);
              new_pos = (fst new_pos, max (snd new_pos) 0);
              new_pos = (fst new_pos, min (snd new_pos) (snd (shape self) - 1));
              reward = - 1;
              terminate = False
          in case py_index (cliff self) (fst old_pos) of
               Inl e \<Rightarrow> Inl e
             | Inr cliff_row \<Rightarrow>
                 (case py_index cliff_row (snd old_pos) of
                    Inl e \<Rightarrow> Inl e
                  | Inr on_cliff \<Rightarrow>
                      let (new_pos, reward, terminate) =
                            (if on_cliff then ((fst (shape self) - 1, 0), - 100, False)
                             else (new_pos, reward, terminate));
                          (new_pos, reward, terminate) =
                            (if fst old_pos = fst (shape self) - 1 \<and> snd old_pos = snd (shape self) - 1
                             then ((fst (shape self) - 1, snd (shape self) - 1), 0, True)
                             else (new_pos, reward, terminate))
                      in Inr (new_pos, reward, terminate)))"

text \<open>
  \<open>_build_transmit_tensor_\<close>: the three nested loops. Each call of
  \<open>_cal_new_position_\<close> creates a fresh array, which is appended to cell \<open>(i, j)\<close> of
  the table together with the reward and the flag.
\<close>

fun build_actions :: "CliffWalking \<Rightarrow> int \<Rightarrow> int \<Rightarrow> int list \<Rightarrow> store \<times> entry list list list
    \<Rightarrow> error + (store \<times> entry list list list)" where
  "build_actions self i j [] st = Inr st"
| "build_actions self i j (a # as) (h, tm) =
     (case cal_new_position self (i, j) a of
        Inl e \<Rightarrow> Inl e
      | Inr (new_pos, reward, terminate) \<Rightarrow>
          (let (p, h') = alloc h new_pos
           in build_actions self i j as
                (h', tm[nat i := (tm ! nat i)[nat j := tm ! nat i ! nat j @ [(p, reward, terminate)]]])))"

fun build_columns :: "CliffWalking \<Rightarrow> int \<Rightarrow> int list \<Rightarrow> store \<times> entry list list list
    \<Rightarrow> error + (store \<times> entry list list list)" where
  "build_columns self i [] st = Inr st"
| "build_columns self i (j # js) st =
     (case build_actions self i j (py_range (int (length (actions self)))) st of
        Inl e \<Rightarrow> Inl e
      | Inr st' \<Rightarrow> build_columns self i js st')"

fun build_rows :: "CliffWalking \<Rightarrow> int list \<Rightarrow> store \<times> entry list list list
    \<Rightarrow> error + (store \<times> entry list list list)" where
  "build_rows self [] st = Inr st"
| "build_rows self (i # is) st =
     (case build_columns self i (py_range (snd (shape self))) st of
        Inl e \<Rightarrow> Inl e
      | Inr st' \<Rightarrow> build_rows self is st')"

definition build_transmit_tensor :: "store \<Rightarrow> CliffWalking \<Rightarrow> error + (store \<times> entry list list list)" where
  "build_transmit_tensor h self =
     (let trans_matrix = map (\<lambda>_. map (\<lambda>_. []) (py_range (snd (shape self)))) (py_range (fst (shape self)))
      in build_rows self (py_range (fst (shape self))) (h, trans_matrix))"

text \<open>
  \<open>__init__\<close>: the fields are set in the order of the source. The position array is
  allocated first, the arrays of the table after it. The three attributes assigned
  last hold placeholders until then; \<open>_build_transmit_tensor_\<close> reads none of them.
\<close>

definition CliffWalking_init :: "error + world" where
  "CliffWalking_init =
     (let sh = (4, 12);
          (p, h) = alloc [] (fst sh - 1, 0);
          self = \<lparr> shape = sh, pos = p, cliff = cliff_init sh,
                   actions = [(''U'', 0), (''D'', 1), (''L'', 2), (''R'', 3)],
                   action2shift = [(0, (- 1, 0)), (1, (1, 0)), (2, (0, - 1)), (3, (0, 1))],
                   transmit_tensor = [], num_actions = 0, state_dim = 0 \<rparr>
      in case build_transmit_tensor h self of
           Inl e \<Rightarrow> Inl e
         | Inr (h', tm) \<Rightarrow>
             Inr (h', self\<lparr> transmit_tensor := tm,
                            num_actions := int (length (actions self)),
                            state_dim := 2 \<rparr>))"

text \<open>
  The argument of \<open>take_action\<close>: a string (the \<open>isinstance(action, str)\<close> branch) or an
  integer index (a Python int or the integer tensor sampled from the policy).
\<close>

datatype act = Str string | Idx int

text \<open>
  \<open>take_action\<close>: the table is read at the current position, then the two components
  of the array held by \<open>self.pos\<close> are overwritten one after the other. The returned
  \<open>new_pos\<close> is the array of the table itself. The subscripts are evaluated from left
  to right, so a bad position raises before a bad action name does. \<open>action_index\<close>
  is the last subscript of the two branches: \<open>self.actions[action]\<close> for a string,
  \<open>action\<close> itself otherwise.
\<close>

definition action_index :: "CliffWalking \<Rightarrow> act \<Rightarrow> error + int" where
  "action_index self action = (case action of Str s \<Rightarrow> dict_get (actions self) s | Idx k \<Rightarrow> Inr k)"

definition take_action :: "world \<Rightarrow> act \<Rightarrow> error + (entry \<times> world)" where
  "take_action w action =
     (let (h, self) = w
      in case py_index (transmit_tensor self) (fst (h ! pos self)) of
           Inl e \<Rightarrow> Inl e
         | Inr row \<Rightarrow>
             (case py_index row (snd (h ! pos self)) of
                Inl e \<Rightarrow> Inl e
              | Inr cell \<Rightarrow>
                  (case action_index self action of
                     Inl e \<Rightarrow> Inl e
                   | Inr k \<Rightarrow>
                       (case py_index cell k of
                          Inl e \<Rightarrow> Inl e
                        | Inr (new_pos, reward, terminate) \<Rightarrow>
                            let h1 = h[pos self := (fst (h ! new_pos), snd (h ! pos self))];
                                h2 = h1[pos self := (fst (h1 ! pos self), snd (h1 ! new_pos))]
                            in Inr ((new_pos, reward, terminate), (h2, self))))))"

text \<open>\<open>reset\<close>: a new array is created and bound to \<open>self.pos\<close>; it is also returned.\<close>

definition reset :: "world \<Rightarrow> addr \<times> world" where
  "reset w =
     (let (h, self) = w;
          (p, h') = alloc h (fst (shape self) - 1, 0)
      in (p, (h', self\<lparr> pos := p \<rparr>)))"

text \<open>
  Reading a stored transition directly, \<open>cw.transmit_tensor[i][j][a]\<close> (as the manual
  test does for cell \<open>(3, 0)\<close>), with the position array read from the store.
\<close>

definition table_lookup :: "world \<Rightarrow> int \<times> int \<Rightarrow> int \<Rightarrow> error + (array2 \<times> real \<times> bool)" where
  "table_lookup w ij a =
     (let (h, self) = w
      in case py_index (transmit_tensor self) (fst ij) of
           Inl e \<Rightarrow> Inl e
         | Inr row \<Rightarrow>
             (case py_index row (snd ij) of
                Inl e \<Rightarrow> Inl e
              | Inr cell \<Rightarrow>
                  (case py_index cell a of
                     Inl e \<Rightarrow> Inl e
                   | Inr (new_pos, reward, terminate) \<Rightarrow> Inr (h ! new_pos, reward, terminate))))"

text \<open>The contents of the array \<open>self.pos\<close>.\<close>

definition cur_pos :: "world \<Rightarrow> array2" where
  "cur_pos w = fst w ! pos (snd w)"

text \<open>
  A caller's sequence of method calls on one environment. A call that raises leaves
  the environment as it was: \<open>take_action\<close> raises before it writes.
\<close>

datatype call = TakeAction act | Reset

fun run_call :: "world \<Rightarrow> call \<Rightarrow> world" where
  "run_call w (TakeAction action) = (case take_action w action of Inl e \<Rightarrow> w | Inr (r, w') \<Rightarrow> w')"
| "run_call w Reset = snd (reset w)"

definition run :: "call list \<Rightarrow> world \<Rightarrow> world" where
  "run cs w = foldl run_call w cs"

text \<open>A position inside the 4 x 12 grid.\<close>

definition in_grid :: "array2 \<Rightarrow> bool" where
  "in_grid p = (0 \<le> fst p \<and> fst p \<le> 3 \<and> 0 \<le> snd p \<and> snd p \<le> 11)"

text \<open>
  The shortest path from the start to the goal that avoids the cliff: up, eleven times
  right, down.
\<close>

definition path_to_goal :: "call list" where
  "path_to_goal = map (\<lambda>a. TakeAction (Idx a)) [0, 3, 3, 3, 3, 3, 3, 3, 3, 3, 3, 3, 1]"

subsection \<open>The constructed environment in closed form\<close>

text \<open>
  The environment that \<open>__init__\<close> builds, written without loops: the array of
  cell \<open>(i, j)\<close> and action \<open>a\<close> has address \<open>1 + (12 i + j) 4 + a\<close>, address 0
  is the position array. \<open>CliffWalking_init\<close> is shown below to compute exactly this.
\<close>

definition grid_self :: CliffWalking where
  "grid_self = \<lparr> shape = (4, 12), pos = 0, cliff = cliff_init (4, 12),
                 actions = [(''U'', 0), (''D'', 1), (''L'', 2), (''R'', 3)],
                 action2shift = [(0, (- 1, 0)), (1, (1, 0)), (2, (0, - 1)), (3, (0, 1))],
                 transmit_tensor = [], num_actions = 0, state_dim = 0 \<rparr>"

definition entry_value :: "nat \<Rightarrow> array2 \<times> real \<times> bool" where
  "entry_value k =
     (case cal_new_position grid_self (int (k div 48), int (k div 4 mod 12)) (int (k mod 4)) of
        Inl e \<Rightarrow> ((0, 0), 0, False)
      | Inr v \<Rightarrow> v)"

definition grid_store :: store where
  "grid_store = (3, 0) # map (\<lambda>k. fst (entry_value k)) [0..<192]"

definition grid_table :: "entry list list list" where
  "grid_table =
     map (\<lambda>i. map (\<lambda>j. map (\<lambda>a. (Suc ((i * 12 + j) * 4 + a), snd (entry_value ((i * 12 + j) * 4 + a))))
                          [0..<4]) [0..<12]) [0..<4]"

definition grid_world :: world where
  "grid_world = (grid_store, grid_self\<lparr> transmit_tensor := grid_table, num_actions := 4, state_dim := 2 \<rparr>)"

text \<open>
  What every world reached from the constructed one satisfies: the environment differs
  from the constructed one in \<open>pos\<close> at most, the arrays of the table are as built,
  \<open>self.pos\<close> is none of them, and the position is inside the grid.
\<close>

definition intact :: "world \<Rightarrow> bool" where
  "intact w =
     ((snd w)\<lparr> pos := 0 \<rparr> = snd grid_world \<and>
      take 192 (tl (fst w)) = tl grid_store \<and>
      (pos (snd w) = 0 \<or> 193 \<le> pos (snd w)) \<and>
      pos (snd w) < length (fst w) \<and>
      in_grid (cur_pos w))"

section \<open>The learners' arithmetic\<close>

text \<open>
  \<open>REINFORCE.train_model\<close>, the loop over \<open>reversed(range(len(rewards)))\<close>. The
  first argument counts the indices still to visit, so the index visited is the
  predecessor. Tensor entries are modelled as real numbers.
\<close>

fun returns_loop :: "nat \<Rightarrow> real \<Rightarrow> real list \<Rightarrow> real list \<Rightarrow> real \<Rightarrow> real list \<Rightarrow> error + real list" where
  "returns_loop 0 gamma rewards masks running_return returns = Inr returns"
| "returns_loop (Suc t) gamma rewards masks running_return returns =
     (if t < length rewards \<and> t < length masks \<and> t < length returns
      then let running_return = rewards ! t + gamma * running_return * masks ! t
           in returns_loop t gamma rewards masks running_return (returns[t := running_return])
      else Inl IndexError)"

definition compute_returns :: "real \<Rightarrow> real list \<Rightarrow> real list \<Rightarrow> error + real list" where
  "compute_returns gamma rewards masks =
     (let returns = replicate (length rewards) 0;
          running_return = 0
      in returns_loop (length rewards) gamma rewards masks running_return returns)"

subsection \<open>Floating-point numbers\<close>





text \<open>The number of binary digits of a natural number.\<close>

fun bit_length :: "nat \<Rightarrow> nat" where
  "bit_length n = (if n = 0 then 0 else Suc (bit_length (n div 2)))"

declare bit_length.simps [simp del]













section \<open>The episode buffer: class ReplayPool\<close>

text \<open>
  The named tuple \<open>Transition\<close> holds one transition when it is pushed, and five
  parallel tuples when \<open>pop_all\<close> builds it, so its fields are polymorphic.
\<close>

record ('s, 'n, 'a, 'r, 'm) Transition =
  state :: 's
  next_state :: 'n
  action :: 'a
  reward :: 'r
  mask' :: 'm

record ('s, 'a) ReplayPool =
  memory :: "('s, 's, 'a, real, int) Transition list"

definition ReplayPool_init :: "('s, 'a) ReplayPool" where
  "ReplayPool_init = \<lparr> memory = [] \<rparr>"

definition push :: "('s, 'a) ReplayPool \<Rightarrow> ('s, 's, 'a, real, int) Transition \<Rightarrow> ('s, 'a) ReplayPool" where
  "push self t = self\<lparr> memory := memory self @ [t] \<rparr>"

text \<open>
  \<open>pop_all\<close> reads \<open>self.memory\<close> and transposes it. With an empty deque,
  \<open>zip()\<close> yields nothing and \<open>Transition()\<close> raises TypeError for its missing
  arguments. The pool itself is returned as the method leaves it.
\<close>

definition pop_all :: "('s, 'a) ReplayPool
    \<Rightarrow> (error + ('s list, 's list, 'a list, real list, int list) Transition) \<times> ('s, 'a) ReplayPool" where
  "pop_all self =
     (let memory = memory self
      in (if memory = [] then Inl TypeError
          else Inr \<lparr> state = map state memory, next_state = map next_state memory,
                     action = map action memory, reward = map reward memory,
                     mask' = map mask' memory \<rparr>,
          self))"

definition reset_pool :: "('s, 'a) ReplayPool \<Rightarrow> ('s, 'a) ReplayPool" where
  "reset_pool self = self\<lparr> memory := [] \<rparr>"

definition len_pool :: "('s, 'a) ReplayPool \<Rightarrow> nat" where
  "len_pool self = length (memory self)"

section \<open>Indexing\<close>

lemma norm_index_nonneg: "0 \<le> i \<Longrightarrow> i < int n \<Longrightarrow> norm_index n i = Some (nat i)"
  by (simp add: norm_index_def)

lemma norm_index_less: "norm_index n i = Some k \<Longrightarrow> k < n"
  by (auto simp: norm_index_def split: if_splits)

lemma py_index_nonneg: "0 \<le> i \<Longrightarrow> i < int (length xs) \<Longrightarrow> py_index xs i = Inr (xs ! nat i)"
  by (simp add: py_index_def norm_index_nonneg)

lemma py_index_nat: "k < length xs \<Longrightarrow> py_index xs (int k) = Inr (xs ! k)"
  by (simp add: py_index_nonneg)

lemma py_index_mem: "py_index xs i = Inr x \<Longrightarrow> x \<in> set xs"
  by (auto simp: py_index_def split: option.splits dest: norm_index_less)

lemma length_py_range: "length (py_range n) = nat n"
  by (simp add: py_range_def)

lemma py_range_nth: "k < nat n \<Longrightarrow> py_range n ! k = int k"
  by (simp add: py_range_def)

section \<open>The transition function on the grid\<close>

lemma grid_self_simps:
  "shape grid_self = (4, 12)" "pos grid_self = 0" "cliff grid_self = cliff_init (4, 12)"
  "actions grid_self = [(''U'', 0), (''D'', 1), (''L'', 2), (''R'', 3)]"
  "action2shift grid_self = [(0, (- 1, 0)), (1, (1, 0)), (2, (0, - 1)), (3, (0, 1))]"
  by (simp_all add: grid_self_def)

lemma py_range_nth_int: "0 \<le> i \<Longrightarrow> i < n \<Longrightarrow> py_range n ! nat i = i"
  by (simp add: py_range_def)

lemma cliff_row: "0 \<le> i \<Longrightarrow> i < 4 \<Longrightarrow> py_index (cliff_init (4, 12)) i = Inr (cliff_init (4, 12) ! nat i)"
  by (simp add: py_index_nonneg cliff_init_def length_py_range)

lemma cliff_cell:
  assumes "0 \<le> i" "i < 4" "0 \<le> j" "j < 12"
  shows "py_index (cliff_init (4, 12) ! nat i) j = Inr (i = 3 \<and> 1 \<le> j \<and> j < 11)"
proof -
  have i: "py_range 4 ! nat i = i" and j: "py_range 12 ! nat j = j"
    using assms by (simp_all add: py_range_nth_int)
  have "nat i < 4" "nat j < 12"
    using assms by simp_all
  then show ?thesis
    using assms i j by (simp add: py_index_nonneg cliff_init_def length_py_range)
qed

lemma cal_new_position_grid:
  assumes "0 \<le> i" "i < 4" "0 \<le> j" "j < 12"
  shows "cal_new_position grid_self (i, j) a =
     (case dict_get (action2shift grid_self) a of
        Inl e \<Rightarrow> Inl e
      | Inr d \<Rightarrow>
          Inr (if i = 3 \<and> j = 11 then ((3, 11), 0, True)
               else if i = 3 \<and> 1 \<le> j \<and> j < 11 then ((3, 0), - 100, False)
               else ((min (max (i + fst d) 0) 3, min (max (j + snd d) 0) 11), - 1, False)))"
proof (cases "dict_get (action2shift grid_self) a")
  case (Inl e)
  then show ?thesis
    by (simp add: cal_new_position_def)
next
  case (Inr d)
  then show ?thesis
    using assms
    by (simp add: cal_new_position_def cliff_row cliff_cell grid_self_simps Let_def)
qed

lemma shift_cases: "0 \<le> a \<Longrightarrow> a < 4 \<Longrightarrow> a = 0 \<or> a = 1 \<or> a = 2 \<or> a = (3::int)"
  by arith

lemma shift_found:
  assumes "0 \<le> a" "a < 4"
  shows "\<exists>d. dict_get (action2shift grid_self) a = Inr d"
  using shift_cases [OF assms] by (auto simp add: dict_get_def grid_self_simps)

lemma cal_new_position_cliff:
  assumes "1 \<le> j" "j \<le> 10" "0 \<le> a" "a < 4"
  shows "cal_new_position grid_self (3, j) a = Inr ((3, 0), - 100, False)"
  using shift_found [OF assms(3,4)] assms(1,2)
  by (auto simp add: cal_new_position_grid)

lemma cal_new_position_goal:
  assumes "0 \<le> a" "a < 4"
  shows "cal_new_position grid_self (3, 11) a = Inr ((3, 11), 0, True)"
  using shift_found [OF assms]
  by (auto simp add: cal_new_position_grid)

lemma cal_new_position_in_grid:
  assumes "0 \<le> i" "i < 4" "0 \<le> j" "j < 12" "0 \<le> a" "a < 4"
  shows "\<exists>v. cal_new_position grid_self (i, j) a = Inr v \<and> in_grid (fst v)"
  using shift_found [OF assms(5,6)] assms(1-4)
  by (auto simp add: cal_new_position_grid in_grid_def)


section \<open>The constructed environment\<close>

text \<open>
  The constructor returns the environment described in closed form. Both sides are
  evaluated: the loops of \<open>_build_transmit_tensor_\<close> on the left, the 192 entries on
  the right.
\<close>

lemma init_eval: "CliffWalking_init = Inr grid_world"
  by code_simp

lemma cell_div4:
  assumes "a < (4::nat)"
  shows "((i * 12 + j) * 4 + a) div 4 = i * 12 + j"
  using assms by simp

lemma cell_index:
  assumes "i < 4" "j < 12" "a < (4::nat)"
  shows "((i * 12 + j) * 4 + a) div 48 = i" "((i * 12 + j) * 4 + a) div 4 mod 12 = j"
    "((i * 12 + j) * 4 + a) mod 4 = a" "(i * 12 + j) * 4 + a < 192"
proof -
  let ?k = "(i * 12 + j) * 4 + a"
  have d4: "?k div 4 = i * 12 + j"
    by (rule cell_div4 [OF assms(3)])
  have "?k div 48 = ?k div 4 div 12"
    using div_mult2_eq [of ?k 4 12] by simp
  also have "\<dots> = (i * 12 + j) div 12"
    by (simp only: d4)
  also have "\<dots> = i"
    using assms(2) by simp
  finally show "?k div 48 = i" .
  have "?k div 4 mod 12 = (i * 12 + j) mod 12"
    by (simp only: d4)
  also have "\<dots> = j"
    using assms(2) by simp
  finally show "?k div 4 mod 12 = j" .
  have "?k mod 4 = a mod 4"
    by (simp only: mod_mult_self3)
  then show "?k mod 4 = a"
    using assms(3) by simp
  show "?k < 192"
    using assms by simp
qed

lemma entry_value_cell:
  assumes "i < 4" "j < 12" "a < 4"
  shows "cal_new_position grid_self (int i, int j) (int a) = Inr (entry_value ((i * 12 + j) * 4 + a))"
proof -
  obtain v where "cal_new_position grid_self (int i, int j) (int a) = Inr v"
    using cal_new_position_in_grid [of "int i" "int j" "int a"] assms by auto
  then show ?thesis
    by (simp only: entry_value_def cell_index [OF assms] sum.case)
qed

lemma entry_value_in_grid:
  assumes "k < 192"
  shows "in_grid (fst (entry_value k))"
proof -
  have "k div 48 < 4" "k div 4 mod 12 < 12" "k mod 4 < 4"
    using assms by simp_all
  then obtain v where "cal_new_position grid_self (int (k div 48), int (k div 4 mod 12)) (int (k mod 4)) = Inr v"
      and "in_grid (fst v)"
    using cal_new_position_in_grid [of "int (k div 48)" "int (k div 4 mod 12)" "int (k mod 4)"] by auto
  then show ?thesis
    by (simp add: entry_value_def)
qed

lemma grid_table_nth:
  assumes "i < 4" "j < 12" "a < 4"
  shows "grid_table ! i ! j ! a = (Suc ((i * 12 + j) * 4 + a), snd (entry_value ((i * 12 + j) * 4 + a)))"
  using assms by (simp add: grid_table_def)

lemma grid_table_length:
  "length grid_table = 4" "i < 4 \<Longrightarrow> length (grid_table ! i) = 12"
  "i < 4 \<Longrightarrow> j < 12 \<Longrightarrow> length (grid_table ! i ! j) = 4"
  by (simp_all add: grid_table_def)

lemma grid_table_entry:
  assumes "row \<in> set grid_table" "cell \<in> set row" "e \<in> set cell"
  shows "\<exists>k<192. e = (Suc k, snd (entry_value k))"
proof -
  from assms obtain i j a where "i < 4" "j < 12" "a < 4"
      and "e = (Suc ((i * 12 + j) * 4 + a), snd (entry_value ((i * 12 + j) * 4 + a)))"
    by (auto simp: grid_table_def)
  then show ?thesis
    using cell_index(4) [of i j a] by blast
qed

lemma grid_store_nth: "k < 192 \<Longrightarrow> grid_store ! Suc k = fst (entry_value k)"
  by (simp add: grid_store_def)

lemma length_grid_store: "length grid_store = 193"
  by (simp add: grid_store_def)

section \<open>Worlds reached from the constructed one\<close>

lemma intact_store:
  assumes "intact w" "k < 192"
  shows "fst w ! Suc k = fst (entry_value k)" and "193 \<le> length (fst w)"
proof -
  have eq: "take 192 (tl (fst w)) = tl grid_store"
    using assms(1) by (simp add: intact_def)
  then have "length (take 192 (tl (fst w))) = 192"
    by (simp add: length_grid_store)
  then have len: "192 \<le> length (tl (fst w))"
    by simp
  then show "193 \<le> length (fst w)"
    by simp
  have "fst w ! Suc k = tl (fst w) ! k"
    using len assms(2) by (simp add: nth_tl)
  also have "\<dots> = take 192 (tl (fst w)) ! k"
    using assms(2) by simp
  also have "\<dots> = grid_store ! Suc k"
    using assms(2) by (simp add: eq nth_tl length_grid_store)
  finally show "fst w ! Suc k = fst (entry_value k)"
    using assms(2) by (simp add: grid_store_nth)
qed

lemma intact_self:
  assumes "intact w"
  shows "transmit_tensor (snd w) = grid_table" "actions (snd w) = actions grid_self"
    "shape (snd w) = (4, 12)"
proof -
  have eq: "(snd w)\<lparr> pos := 0 \<rparr> = snd grid_world"
    using assms by (simp add: intact_def)
  show "transmit_tensor (snd w) = grid_table"
    using arg_cong [OF eq, of transmit_tensor] by (simp add: grid_world_def)
  show "actions (snd w) = actions grid_self"
    using arg_cong [OF eq, of actions] by (simp add: grid_world_def)
  show "shape (snd w) = (4, 12)"
    using arg_cong [OF eq, of shape] by (simp add: grid_world_def grid_self_simps)
qed

lemma intact_grid_world: "intact grid_world"
  by (simp add: intact_def grid_world_def cur_pos_def grid_self_simps length_grid_store in_grid_def)
     (simp add: grid_store_def grid_self_def)

lemma table_lookup_intact:
  assumes "intact w" "i < 4" "j < 12" "a < 4"
  shows "table_lookup w (int i, int j) (int a) = Inr (entry_value ((i * 12 + j) * 4 + a))"
proof -
  have "table_lookup w (int i, int j) (int a) =
      Inr (fst w ! Suc ((i * 12 + j) * 4 + a), snd (entry_value ((i * 12 + j) * 4 + a)))"
    using assms(2-4)
    by (simp add: table_lookup_def split_beta intact_self [OF assms(1)] py_index_nat
        grid_table_length grid_table_nth)
  then show ?thesis
    using intact_store(1) [OF assms(1) cell_index(4) [OF assms(2-4)]] by simp
qed

text \<open>
  \<open>take_action\<close> in such a world, whatever the action: it raises, or it copies one
  of the arrays of the table into the position array.
\<close>

lemma take_action_intact:
  assumes "intact w" "take_action w act = Inr (e, w')"
  shows "\<exists>k<192. e = (Suc k, snd (entry_value k)) \<and>
           w' = ((fst w)[pos (snd w) := fst (entry_value k)], snd w)"
proof -
  obtain row cell k where row: "py_index grid_table (fst (cur_pos w)) = Inr row"
    and cell: "py_index row (snd (cur_pos w)) = Inr cell"
    and ent: "py_index cell k = Inr e"
    and w': "w' = (let h = fst w; self = snd w; new_pos = fst e;
                     h1 = h[pos self := (fst (h ! new_pos), snd (h ! pos self))];
                     h2 = h1[pos self := (fst (h1 ! pos self), snd (h1 ! new_pos))]
                 in (h2, self))"
    using assms(2)
    by (auto simp add: take_action_def split_beta intact_self [OF assms(1)] cur_pos_def Let_def
        split: sum.splits)
  from grid_table_entry [OF py_index_mem [OF row] py_index_mem [OF cell] py_index_mem [OF ent]]
  obtain m where m: "m < 192" "e = (Suc m, snd (entry_value m))"
    by blast
  have p: "pos (snd w) \<noteq> Suc m" "pos (snd w) < length (fst w)"
    using assms(1) m(1) by (auto simp add: intact_def)
  have "w' = ((fst w)[pos (snd w) := fst (entry_value m)], snd w)"
    using p by (simp add: w' m Let_def intact_store(1) [OF assms(1) m(1)])
  with m show ?thesis
    by blast
qed


lemma intact_take_action:
  assumes "intact w" "take_action w act = Inr (e, w')"
  shows "intact w'"
proof -
  from take_action_intact [OF assms] obtain k where k: "k < 192"
    and w': "w' = ((fst w)[pos (snd w) := fst (entry_value k)], snd w)"
    by blast
  have p: "pos (snd w) = 0 \<or> 193 \<le> pos (snd w)" "pos (snd w) < length (fst w)"
    using assms(1) by (simp_all add: intact_def)
  have "take 192 (tl ((fst w)[pos (snd w) := fst (entry_value k)])) = take 192 (tl (fst w))"
  proof (rule nth_equalityI)
    show "length (take 192 (tl ((fst w)[pos (snd w) := fst (entry_value k)]))) = length (take 192 (tl (fst w)))"
      by simp
  next
    fix n
    assume "n < length (take 192 (tl ((fst w)[pos (snd w) := fst (entry_value k)])))"
    then have n: "n < 192" "n < length (fst w) - 1"
      by simp_all
    then have "Suc n \<noteq> pos (snd w)"
      using p(1) by auto
    then show "take 192 (tl ((fst w)[pos (snd w) := fst (entry_value k)])) ! n = take 192 (tl (fst w)) ! n"
      using n by (simp add: nth_tl)
  qed
  then show ?thesis
    using assms(1) p(2) entry_value_in_grid [OF k]
    by (simp add: intact_def w' cur_pos_def)
qed

lemma intact_reset:
  assumes "intact w"
  shows "intact (snd (reset w))" and "cur_pos (snd (reset w)) = (3, 0)"
    and "fst (reset w) = pos (snd (snd (reset w)))"
proof -
  have len: "193 \<le> length (fst w)"
    using intact_store(2) [OF assms, of 0] by simp
  have r: "snd (reset w) = (fst w @ [(3, 0)], (snd w)\<lparr> pos := length (fst w) \<rparr>)"
    "fst (reset w) = length (fst w)"
    by (simp_all add: reset_def alloc_def split_beta intact_self(3) [OF assms])
  show "cur_pos (snd (reset w)) = (3, 0)"
    by (simp add: r cur_pos_def)
  show "fst (reset w) = pos (snd (snd (reset w)))"
    by (simp add: r)
  have "take 192 (tl (fst w @ [(3, 0)])) = take 192 (tl (fst w))"
    using len by (cases "fst w") simp_all
  then show "intact (snd (reset w))"
    using assms len by (simp add: intact_def r cur_pos_def in_grid_def)
qed

lemma intact_run_call: "intact w \<Longrightarrow> intact (run_call w c)"
proof (cases c)
  case (TakeAction act)
  assume "intact w"
  then show ?thesis
    using intact_take_action [of w act] by (auto simp add: TakeAction split: sum.splits)
next
  case Reset
  assume "intact w"
  then show ?thesis
    by (simp add: Reset intact_reset(1))
qed

lemma intact_run: "intact w \<Longrightarrow> intact (run cs w)"
  unfolding run_def by (induction cs arbitrary: w) (simp_all add: intact_run_call)

lemma take_action_in_range:
  assumes "intact w" "action_index (snd w) act = Inr a" "0 \<le> a" "a < 4"
    and "cur_pos w = (i, j)"
  shows "take_action w act =
     Inr ((Suc ((nat i * 12 + nat j) * 4 + nat a), snd (entry_value ((nat i * 12 + nat j) * 4 + nat a))),
          ((fst w)[pos (snd w) := fst (entry_value ((nat i * 12 + nat j) * 4 + nat a))], snd w))"
proof -
  define k where "k = (nat i * 12 + nat j) * 4 + nat a"
  have ij: "0 \<le> i" "i < 4" "0 \<le> j" "j < 12"
    using assms(1,5) by (simp_all add: intact_def in_grid_def)
  then have n: "nat i < 4" "nat j < 12" "nat a < 4"
    using assms(3,4) by simp_all
  have k: "k < 192"
    unfolding k_def by (rule cell_index(4) [OF n])
  have ent: "grid_table ! nat i ! nat j ! nat a = (Suc k, snd (entry_value k))"
    unfolding k_def by (rule grid_table_nth [OF n])
  have p: "pos (snd w) \<noteq> Suc k" "pos (snd w) < length (fst w)"
    using assms(1) k by (auto simp add: intact_def)
  have h: "fst w ! pos (snd w) = (i, j)"
    using assms(5) by (simp add: cur_pos_def)
  have "take_action w act =
     Inr ((Suc k, snd (entry_value k)), ((fst w)[pos (snd w) := fst (entry_value k)], snd w))"
    using ij n assms(2-4) p
    by (simp add: take_action_def split_beta intact_self [OF assms(1)] h py_index_nonneg
        grid_table_length ent Let_def intact_store(1) [OF assms(1) k])
  then show ?thesis
    by (simp only: k_def)
qed


lemma table_lookup_cal:
  assumes "intact w" "0 \<le> i" "i < 4" "0 \<le> j" "j < 12" "0 \<le> a" "a < 4"
  shows "\<exists>v. cal_new_position grid_self (i, j) a = Inr v \<and> table_lookup w (i, j) a = Inr v \<and> in_grid (fst v)"
proof -
  have n: "nat i < 4" "nat j < 12" "nat a < 4"
    using assms(2-7) by simp_all
  have "cal_new_position grid_self (i, j) a = Inr (entry_value ((nat i * 12 + nat j) * 4 + nat a))"
    using entry_value_cell [OF n] assms(2,4,6) by simp
  moreover have "table_lookup w (i, j) a = Inr (entry_value ((nat i * 12 + nat j) * 4 + nat a))"
    using table_lookup_intact [OF assms(1) n] assms(2,4,6) by simp
  moreover have "in_grid (fst (entry_value ((nat i * 12 + nat j) * 4 + nat a)))"
    by (rule entry_value_in_grid [OF cell_index(4) [OF n]])
  ultimately show ?thesis
    by blast
qed

lemma take_action_cal:
  assumes "intact w" "action_index (snd w) act = Inr a" "0 \<le> a" "a < 4"
  shows "\<exists>v addr w'. cal_new_position grid_self (cur_pos w) a = Inr v \<and>
           take_action w act = Inr ((addr, snd v), w') \<and> fst w' ! addr = fst v \<and> cur_pos w' = fst v"
proof -
  obtain i j where c: "cur_pos w = (i, j)"
    by (cases "cur_pos w")
  have ij: "0 \<le> i" "i < 4" "0 \<le> j" "j < 12"
    using assms(1) c by (simp_all add: intact_def in_grid_def)
  then have n: "nat i < 4" "nat j < 12" "nat a < 4"
    using assms(3,4) by simp_all
  define k where "k = (nat i * 12 + nat j) * 4 + nat a"
  have k: "k < 192"
    unfolding k_def by (rule cell_index(4) [OF n])
  have p: "pos (snd w) \<noteq> Suc k" "pos (snd w) < length (fst w)"
    using assms(1) k by (auto simp add: intact_def)
  have "cal_new_position grid_self (cur_pos w) a = Inr (entry_value k)"
    using entry_value_cell [OF n] ij assms(3) by (simp add: c k_def)
  moreover have "take_action w act =
      Inr ((Suc k, snd (entry_value k)), ((fst w)[pos (snd w) := fst (entry_value k)], snd w))"
    using take_action_in_range [OF assms c] by (simp only: k_def)
  moreover have "fst ((fst w)[pos (snd w) := fst (entry_value k)], snd w) ! Suc k = fst (entry_value k)"
    using p intact_store(1) [OF assms(1) k] by simp
  moreover have "cur_pos ((fst w)[pos (snd w) := fst (entry_value k)], snd w) = fst (entry_value k)"
    using p by (simp add: cur_pos_def)
  ultimately show ?thesis
    by blast
qed

lemma take_action_frame:
  assumes "take_action w act = Inr (e, w')"
  shows "snd w' = snd w" "length (fst w') = length (fst w)"
    "x \<noteq> pos (snd w) \<Longrightarrow> fst w' ! x = fst w ! x"
  using assms
  by (auto simp add: take_action_def split_beta Let_def split: sum.splits)

lemma table_lookup_run:
  assumes "intact w"
  shows "table_lookup w ij a = table_lookup grid_world ij a"
proof -
  have same: "fst w ! fst e = fst grid_world ! fst e"
    if "py_index grid_table (fst ij) = Inr row" "py_index row (snd ij) = Inr cell" "py_index cell a = Inr e"
    for row cell e
  proof -
    from grid_table_entry [OF py_index_mem [OF that(1)] py_index_mem [OF that(2)] py_index_mem [OF that(3)]]
    obtain k where "k < 192" "e = (Suc k, snd (entry_value k))"
      by blast
    then show ?thesis
      using intact_store(1) [OF assms, of k] intact_store(1) [OF intact_grid_world, of k] by simp
  qed
  show ?thesis
    using same
    by (auto simp add: table_lookup_def split_beta intact_self(1) [OF assms]
        intact_self(1) [OF intact_grid_world] split: sum.splits)
qed

lemma action_index_intact:
  assumes "intact w"
  shows "action_index (snd w) act = action_index grid_self act"
  by (cases act) (simp_all add: action_index_def intact_self(2) [OF assms])

text \<open>Three concrete runs, used as examples below.\<close>

lemma path_to_cliff: "cur_pos (run [TakeAction (Str ''R'')] grid_world) = (3, 1)"
  by code_simp

lemma path_to_goal_pos: "cur_pos (run path_to_goal grid_world) = (3, 11)"
  by code_simp

lemma pos_after_step: "pos (snd (run [TakeAction (Str ''U'')] grid_world)) = 0"
  by code_simp

section \<open>Results on the environment\<close>

text \<open>
  Claim C4: from every cliff cell \<open>(3, j)\<close>, \<open>1 \<le> j \<le> 10\<close>, and for each of the four
  actions (given by index or by letter), the stored transition has reward -100, next
  position \<open>(3, 0)\<close> and terminal flag false; this holds of the table in every world
  reached from the constructed one, and \<open>take_action\<close> called at that cell returns
  this transition and moves the environment to \<open>(3, 0)\<close>.
\<close>

theorem cliff_transition:
  assumes "CliffWalking_init = Inr w0" and "1 \<le> j" "j \<le> 10"
    and "action_index (snd w0) act = Inr a" "0 \<le> a" "a < 4"
  shows "table_lookup (run cs w0) (3, j) a = Inr ((3, 0), - 100, False) \<and>
         (cur_pos (run cs w0) = (3, j) \<longrightarrow>
            (\<exists>addr w'. take_action (run cs w0) act = Inr ((addr, - 100, False), w') \<and>
                fst w' ! addr = (3, 0) \<and> cur_pos w' = (3, 0)))"
proof -
  have w0: "w0 = grid_world"
    using assms(1) by (simp add: init_eval)
  have i: "intact (run cs grid_world)"
    by (rule intact_run [OF intact_grid_world])
  have c: "cal_new_position grid_self (3, j) a = Inr ((3, 0), - 100, False)"
    by (rule cal_new_position_cliff [OF assms(2,3,5,6)])
  have act: "action_index (snd (run cs grid_world)) act = Inr a"
    using assms(4) by (simp add: action_index_intact [OF i] w0 action_index_intact [OF intact_grid_world])
  have "table_lookup (run cs grid_world) (3, j) a = Inr ((3, 0), - 100, False)"
    using table_lookup_cal [OF i, of 3 j a] assms(2,3,5,6) c by auto
  moreover have "\<exists>addr w'. take_action (run cs grid_world) act = Inr ((addr, - 100, False), w') \<and>
      fst w' ! addr = (3, 0) \<and> cur_pos w' = (3, 0)" if "cur_pos (run cs grid_world) = (3, j)"
    using take_action_cal [OF i act assms(5,6)] c that by auto
  ultimately show ?thesis
    unfolding w0 by blast
qed

text \<open>
  An instance: after one step to the right the environment is on the cliff cell
  \<open>(3, 1)\<close>, and going up from there costs 100 and leads back to the start.
\<close>

theorem cliff_transition_witness:
  "CliffWalking_init = Inr grid_world \<and> action_index (snd grid_world) (Str ''U'') = Inr 0 \<and>
   table_lookup (run [TakeAction (Str ''R'')] grid_world) (3, 1) 0 = Inr ((3, 0), - 100, False) \<and>
   cur_pos (run [TakeAction (Str ''R'')] grid_world) = (3, 1) \<and>
   (\<exists>addr w'. take_action (run [TakeAction (Str ''R'')] grid_world) (Str ''U'') = Inr ((addr, - 100, False), w') \<and>
       fst w' ! addr = (3, 0) \<and> cur_pos w' = (3, 0))"
proof -
  have a: "action_index (snd grid_world) (Str ''U'') = Inr 0"
    by (simp add: action_index_def dict_get_def grid_world_def grid_self_simps)
  show ?thesis
    using cliff_transition [OF init_eval _ _ a, of 1 "[TakeAction (Str ''R'')]"] init_eval a path_to_cliff
    by simp
qed

text \<open>
  Claim C5: for each of the four actions the stored transition of the goal cell
  \<open>(3, 11)\<close> has next position \<open>(3, 11)\<close>, reward 0 and terminal flag true, and
  \<open>take_action\<close> called at the goal returns it and stays at the goal.
\<close>

theorem goal_transition:
  assumes "CliffWalking_init = Inr w0"
    and "action_index (snd w0) act = Inr a" "0 \<le> a" "a < 4"
  shows "table_lookup (run cs w0) (3, 11) a = Inr ((3, 11), 0, True) \<and>
         (cur_pos (run cs w0) = (3, 11) \<longrightarrow>
            (\<exists>addr w'. take_action (run cs w0) act = Inr ((addr, 0, True), w') \<and>
                fst w' ! addr = (3, 11) \<and> cur_pos w' = (3, 11)))"
proof -
  have w0: "w0 = grid_world"
    using assms(1) by (simp add: init_eval)
  have i: "intact (run cs grid_world)"
    by (rule intact_run [OF intact_grid_world])
  have c: "cal_new_position grid_self (3, 11) a = Inr ((3, 11), 0, True)"
    by (rule cal_new_position_goal [OF assms(3,4)])
  have act: "action_index (snd (run cs grid_world)) act = Inr a"
    using assms(2) by (simp add: action_index_intact [OF i] w0 action_index_intact [OF intact_grid_world])
  have "table_lookup (run cs grid_world) (3, 11) a = Inr ((3, 11), 0, True)"
    using table_lookup_cal [OF i, of 3 11 a] assms(3,4) c by auto
  moreover have "\<exists>addr w'. take_action (run cs grid_world) act = Inr ((addr, 0, True), w') \<and>
      fst w' ! addr = (3, 11) \<and> cur_pos w' = (3, 11)" if "cur_pos (run cs grid_world) = (3, 11)"
    using take_action_cal [OF i act assms(3,4)] c that by auto
  ultimately show ?thesis
    unfolding w0 by blast
qed

text \<open>An instance: the goal is reached by \<open>path_to_goal\<close>, and going left there stays.\<close>

theorem goal_transition_witness:
  "CliffWalking_init = Inr grid_world \<and> action_index (snd grid_world) (Idx 2) = Inr 2 \<and>
   table_lookup (run path_to_goal grid_world) (3, 11) 2 = Inr ((3, 11), 0, True) \<and>
   cur_pos (run path_to_goal grid_world) = (3, 11) \<and>
   (\<exists>addr w'. take_action (run path_to_goal grid_world) (Idx 2) = Inr ((addr, 0, True), w') \<and>
       fst w' ! addr = (3, 11) \<and> cur_pos w' = (3, 11))"
proof -
  have a: "action_index (snd grid_world) (Idx 2) = Inr 2"
    by (simp add: action_index_def)
  show ?thesis
    using goal_transition [OF init_eval a, of path_to_goal] init_eval a path_to_goal_pos
    by simp
qed

text \<open>
  Claim C8: for every position of the grid and each of the four actions the stored next
  position is inside the grid; and the position of the environment is inside the grid
  after any sequence of calls, in particular after \<open>reset\<close> followed by any sequence
  of \<open>take_action\<close> calls.
\<close>

theorem positions_stay_in_grid:
  assumes "CliffWalking_init = Inr w0"
  shows "(\<forall>i j a. 0 \<le> i \<and> i < 4 \<and> 0 \<le> j \<and> j < 12 \<and> 0 \<le> a \<and> a < 4 \<longrightarrow>
            (\<exists>p r t. table_lookup (run cs w0) (i, j) a = Inr (p, r, t) \<and> in_grid p)) \<and>
         in_grid (cur_pos (run cs w0)) \<and>
         in_grid (cur_pos (run (map TakeAction acts) (snd (reset w0))))"
proof -
  have w0: "w0 = grid_world"
    using assms(1) by (simp add: init_eval)
  have i: "intact (run cs grid_world)"
    by (rule intact_run [OF intact_grid_world])
  have r: "intact (run (map TakeAction acts) (snd (reset grid_world)))"
    by (rule intact_run [OF intact_reset(1) [OF intact_grid_world]])
  have "\<exists>p r t. table_lookup (run cs grid_world) (i, j) a = Inr (p, r, t) \<and> in_grid p"
    if "0 \<le> i \<and> i < 4 \<and> 0 \<le> j \<and> j < 12 \<and> 0 \<le> a \<and> a < 4" for i j a
    using table_lookup_cal [OF i, of i j a] that by (metis prod.collapse)
  then show ?thesis
    unfolding w0 using i r by (simp add: intact_def)
qed

text \<open>An instance, with one entry of the table and a run of three steps after a reset.\<close>

theorem positions_stay_in_grid_witness:
  "CliffWalking_init = Inr grid_world \<and>
   (\<exists>p r t. table_lookup (run [Reset] grid_world) (2, 11) 1 = Inr (p, r, t) \<and> in_grid p) \<and>
   in_grid (cur_pos (run [Reset] grid_world)) \<and>
   in_grid (cur_pos (run (map TakeAction [Idx 2, Str ''D'', Idx 0]) (snd (reset grid_world))))"
  using positions_stay_in_grid [OF init_eval, of "[Reset]" "[Idx 2, Str ''D'', Idx 0]"] init_eval
  by simp

text \<open>
  Claim C9: after any sequence of \<open>take_action\<close> and \<open>reset\<close> calls the transition
  table is the one built by the constructor, and reading any of its entries gives what
  it gave at construction; a \<open>take_action\<close> call changes nothing but the contents of
  the position array: the environment's fields and every other array stay as they are.
\<close>

theorem transmit_tensor_immutable:
  assumes "CliffWalking_init = Inr w0"
  shows "transmit_tensor (snd (run cs w0)) = transmit_tensor (snd w0) \<and>
         (\<forall>ij a. table_lookup (run cs w0) ij a = table_lookup w0 ij a) \<and>
         (\<forall>act e w'. take_action (run cs w0) act = Inr (e, w') \<longrightarrow>
            snd w' = snd (run cs w0) \<and> length (fst w') = length (fst (run cs w0)) \<and>
            (\<forall>x. x \<noteq> pos (snd (run cs w0)) \<longrightarrow> fst w' ! x = fst (run cs w0) ! x))"
proof -
  have w0: "w0 = grid_world"
    using assms(1) by (simp add: init_eval)
  have i: "intact (run cs grid_world)"
    by (rule intact_run [OF intact_grid_world])
  have "transmit_tensor (snd (run cs grid_world)) = transmit_tensor (snd grid_world)"
    by (simp add: intact_self(1) [OF i] intact_self(1) [OF intact_grid_world])
  moreover have "table_lookup (run cs grid_world) ij a = table_lookup grid_world ij a" for ij a
    by (rule table_lookup_run [OF i])
  moreover have "snd w' = snd (run cs grid_world) \<and> length (fst w') = length (fst (run cs grid_world)) \<and>
      (\<forall>x. x \<noteq> pos (snd (run cs grid_world)) \<longrightarrow> fst w' ! x = fst (run cs grid_world) ! x)"
    if "take_action (run cs grid_world) act = Inr (e, w')" for act e w'
    using take_action_frame [OF that] by simp
  ultimately show ?thesis
    unfolding w0 by blast
qed


text \<open>An instance: a step to the right, taken after a step up.\<close>

theorem transmit_tensor_immutable_witness:
  "CliffWalking_init = Inr grid_world \<and>
   transmit_tensor (snd (run [TakeAction (Str ''U'')] grid_world)) = transmit_tensor (snd grid_world) \<and>
   table_lookup (run [TakeAction (Str ''U'')] grid_world) (3, 0) 3 = table_lookup grid_world (3, 0) 3 \<and>
   (\<exists>e w'. take_action (run [TakeAction (Str ''U'')] grid_world) (Idx 3) = Inr (e, w') \<and>
      snd w' = snd (run [TakeAction (Str ''U'')] grid_world) \<and>
      length (fst w') = length (fst (run [TakeAction (Str ''U'')] grid_world)) \<and>
      fst w' ! 148 = fst (run [TakeAction (Str ''U'')] grid_world) ! 148)"
proof -
  have i: "intact (run [TakeAction (Str ''U'')] grid_world)"
    by (rule intact_run [OF intact_grid_world])
  obtain e w' where t: "take_action (run [TakeAction (Str ''U'')] grid_world) (Idx 3) = Inr (e, w')"
    using take_action_cal [OF i, of "Idx 3" 3] by (auto simp add: action_index_def)
  note imm = transmit_tensor_immutable [OF init_eval, of "[TakeAction (Str ''U'')]"]
  have "transmit_tensor (snd (run [TakeAction (Str ''U'')] grid_world)) = transmit_tensor (snd grid_world)"
    using imm by blast
  moreover have "table_lookup (run [TakeAction (Str ''U'')] grid_world) (3, 0) 3 = table_lookup grid_world (3, 0) 3"
    using imm by blast
  moreover have "snd w' = snd (run [TakeAction (Str ''U'')] grid_world) \<and>
      length (fst w') = length (fst (run [TakeAction (Str ''U'')] grid_world)) \<and>
      (\<forall>x. x \<noteq> pos (snd (run [TakeAction (Str ''U'')] grid_world)) \<longrightarrow>
         fst w' ! x = fst (run [TakeAction (Str ''U'')] grid_world) ! x)"
    using imm t by blast
  ultimately have "take_action (run [TakeAction (Str ''U'')] grid_world) (Idx 3) = Inr (e, w') \<and>
      snd w' = snd (run [TakeAction (Str ''U'')] grid_world) \<and>
      length (fst w') = length (fst (run [TakeAction (Str ''U'')] grid_world)) \<and>
      fst w' ! 148 = fst (run [TakeAction (Str ''U'')] grid_world) ! 148"
    and "transmit_tensor (snd (run [TakeAction (Str ''U'')] grid_world)) = transmit_tensor (snd grid_world)"
    and "table_lookup (run [TakeAction (Str ''U'')] grid_world) (3, 0) 3 = table_lookup grid_world (3, 0) 3"
    using t pos_after_step by simp_all
  then show ?thesis
    using init_eval by blast
qed

text \<open>
  Claim C10: in every state of the environment whose \<open>actions\<close> dictionary is the
  constructed one, \<open>take_action\<close> with a letter and with the index the dictionary
  gives it return the same result and leave the same state.
\<close>

theorem take_action_str_idx:
  assumes "CliffWalking_init = Inr w0" and "actions (snd w) = actions (snd w0)"
    and "(s, k) \<in> {(''U'', 0), (''D'', 1), (''L'', 2), (''R'', 3)}"
  shows "take_action w (Str s) = take_action w (Idx k)"
proof -
  have "w0 = grid_world"
    using assms(1) by (simp add: init_eval)
  then have "actions (snd w) = [(''U'', 0), (''D'', 1), (''L'', 2), (''R'', 3)]"
    using assms(2) by (simp add: grid_world_def grid_self_simps)
  then have eq: "action_index (snd w) (Str s) = action_index (snd w) (Idx k)"
    using assms(3) by (auto simp add: action_index_def dict_get_def)
  show ?thesis
    unfolding take_action_def Let_def split_beta eq ..
qed

text \<open>An instance, after a reset.\<close>

theorem take_action_str_idx_witness:
  "CliffWalking_init = Inr grid_world \<and>
   take_action (run [Reset] grid_world) (Str ''L'') = take_action (run [Reset] grid_world) (Idx 2)"
proof -
  have "actions (snd (run [Reset] grid_world)) = actions (snd grid_world)"
    by (simp add: run_def reset_def alloc_def split_beta)
  then show ?thesis
    using take_action_str_idx [OF init_eval, of "run [Reset] grid_world" "''L''" 2] init_eval
    by simp
qed

section \<open>Results on the encoding, the learners and the buffer\<close>

lemma memory_foldl_push: "memory (foldl push p ts) = memory p @ ts"
  by (induction ts arbitrary: p) (simp_all add: push_def)

text \<open>
  Inside the grid the encoding is a vector of 48 entries, all zero except a single one,
  at index \<open>5 r + c\<close>.
\<close>

lemma onehot_in_grid:
  assumes "0 \<le> r" "r < 4" "0 \<le> c" "c < 12"
  shows "convert_state2onehot (r, c) 48 = Inr [(replicate 48 0)[nat (r * 5 + c) := 1]]"
  using assms by (simp add: convert_state2onehot_def py_setitem_def norm_index_def)

text \<open>
  Claim C1: for every grid position the encoding is a one-hot vector of dimension 48,
  and distinct positions have distinct encodings. The code multiplies the row by 5, not
  by the row length 12, so the second half fails: positions \<open>(0, 5)\<close> and \<open>(1, 0)\<close>
  are both encoded by the vector whose one is at index 5.
\<close>

theorem onehot_collision:
  "convert_state2onehot (0, 5) 48 = convert_state2onehot (1, 0) 48 \<and>
   convert_state2onehot (1, 0) 48 = Inr [replicate 5 0 @ [1] @ replicate 42 0]"
  by (simp add: convert_state2onehot_def py_setitem_def norm_index_def numeral_eq_Suc)

text \<open>
  Claim C2, as stated: after \<open>pop_all\<close> the buffer is empty. It is not: one transition
  pushed onto a new pool is still there after \<open>pop_all\<close>.
\<close>

theorem pop_all_not_empty:
  "len_pool (snd (pop_all (push ReplayPool_init
      \<lparr> state = [[1 :: real]], next_state = [[1]], action = [1 :: real], reward = - 1, mask' = 1 \<rparr>))) \<noteq> 0"
  by (simp add: len_pool_def pop_all_def push_def ReplayPool_init_def)

text \<open>
  Claim C2, amended: \<open>pop_all\<close> returns the accumulated transitions as five parallel
  sequences and leaves the buffer as it is. After pushing the transitions \<open>t # ts\<close>
  onto a new pool, the length after \<open>pop_all\<close> is their number; for any pool the
  length is the same before and after \<open>pop_all\<close>, and it is 0 after \<open>reset\<close>.
\<close>

theorem pop_all_keeps_buffer:
  "fst (pop_all (foldl push ReplayPool_init (t # ts))) =
     Inr \<lparr> state = map state (t # ts), next_state = map next_state (t # ts),
           action = map action (t # ts), reward = map reward (t # ts),
           mask' = map mask' (t # ts) \<rparr> \<and>
   len_pool (snd (pop_all (foldl push ReplayPool_init (t # ts)))) = length (t # ts) \<and>
   snd (pop_all p) = p \<and>
   len_pool (snd (pop_all p)) = len_pool p \<and>
   len_pool (reset_pool (snd (pop_all p))) = 0"
proof -
  have m: "memory (foldl push ReplayPool_init (t # ts)) = t # ts"
    using memory_foldl_push [of ReplayPool_init "t # ts"] by (simp add: ReplayPool_init_def)
  show ?thesis
    using m by (simp add: pop_all_def len_pool_def reset_pool_def Let_def del: foldl_Cons)
qed

text \<open>
  Claim C6: with rewards \<open>[-1, -1, -1, 0]\<close>, masks \<open>[1, 1, 1, 0]\<close> and discount 1 the
  backward accumulation yields the returns \<open>[-3, -2, -1, 0]\<close>.
\<close>

theorem returns_example:
  "compute_returns 1 [- 1, - 1, - 1, 0] [1, 1, 1, 0] = Inr [- 3, - 2, - 1, 0]"
  by (simp add: compute_returns_def)

section \<open>Floating-point arithmetic\<close>

lemma bit_length_0 [simp]: "bit_length 0 = 0"
  by (simp add: bit_length.simps)

















end
